theory Spec2Isabelle
  imports Complex_Main "HOL-Library.Multiset"
begin

section \<open>The item table (schema.sql)\<close>

text \<open>
  One row of the table \<open>items\<close>. The column \<open>id\<close> is called \<open>item_id\<close> here, since
  \<open>id\<close> is the identity function of HOL. \<open>name\<close> is \<open>TEXT NOT NULL\<close>; \<open>price\<close>, \<open>url\<close>
  and \<open>image_key\<close> are nullable and \<open>None\<close> is SQL's \<open>NULL\<close>. The handlers never write
  \<open>NULL\<close> into \<open>category\<close>, \<open>priority\<close> or \<open>created_at\<close> (each has a default or a
  fallback), so these columns carry plain values. A JavaScript number is an exact \<open>real\<close>
  for \<open>price\<close> and an \<open>int\<close> for the \<open>INTEGER\<close> columns: the handlers only store,
  compare and return numbers.
\<close>

record item =
  item_id :: nat
  name :: string
  price :: "real option"
  url :: "string option"
  image_key :: "string option"
  category :: string
  priority :: int
  created_at :: int

text \<open>
  The table: its rows, and the largest rowid ever handed out, which \<open>AUTOINCREMENT\<close>
  keeps in \<open>sqlite_sequence\<close>.
\<close>

record store =
  rows :: "item list"
  seq :: nat

text \<open>
  The JSON body of a request after destructuring: each field is either absent
  (\<open>undefined\<close>, here \<open>None\<close>) or carries a value of the type the client's \<open>Item\<close>
  interface gives it.
\<close>

record item_fields =
  f_name :: "string option"
  f_price :: "real option"
  f_url :: "string option"
  f_image_key :: "string option"
  f_category :: "string option"
  f_priority :: "int option"

definition no_fields :: item_fields where
  "no_fields = \<lparr>f_name = None, f_price = None, f_url = None, f_image_key = None,
     f_category = None, f_priority = None\<rparr>"

text \<open>
  The two exceptions the database client can throw inside a handler. No handler catches
  them, so the framework answers with status 500; a reply of a handler itself has
  status 200.
\<close>

datatype error = D1_TYPE_ERROR | SQLITE_CONSTRAINT

fun http_status :: "error + 'a \<Rightarrow> nat" where
  "http_status (Inl e) = 500"
| "http_status (Inr v) = 200"

definition client_error :: "nat \<Rightarrow> bool" where
  "client_error status = (400 \<le> status \<and> status < 500)"

text \<open>
  The database client library is not part of the repository. What its \<open>bind\<close> does
  with \<open>undefined\<close> is a parameter of the model: it either throws, or binds \<open>NULL\<close>.
\<close>

datatype d1_bind = RejectsUndefined | UndefinedAsNull

section \<open>GET /api/items\<close>

text \<open>
  \<open>ORDER BY priority ASC, created_at DESC\<close>: \<open>order_by a b\<close> says that row \<open>a\<close> may
  stand before row \<open>b\<close>. The engine's sort is modelled as an insertion sort under
  this comparison.
\<close>

definition order_by :: "item \<Rightarrow> item \<Rightarrow> bool" where
  "order_by a b =
     (priority a < priority b \<or> (priority a = priority b \<and> created_at b \<le> created_at a))"

fun insert_row :: "item \<Rightarrow> item list \<Rightarrow> item list" where
  "insert_row r [] = [r]"
| "insert_row r (x # xs) = (if order_by r x then r # x # xs else x # insert_row r xs)"

definition listAll :: "store \<Rightarrow> item list" where
  "listAll s = foldr insert_row (rows s) []"

section \<open>POST /api/items\<close>

text \<open>JavaScript's \<open>category || 'uncategorized'\<close> and \<open>priority || 0\<close>.\<close>

definition category_or :: "string option \<Rightarrow> string" where
  "category_or c = (case c of None \<Rightarrow> ''uncategorized''
     | Some v \<Rightarrow> if v = [] then ''uncategorized'' else v)"

definition priority_or :: "int option \<Rightarrow> int" where
  "priority_or p = (case p of None \<Rightarrow> 0 | Some v \<Rightarrow> if v = 0 then 0 else v)"

text \<open>
  The rowid \<open>AUTOINCREMENT\<close> chooses: one more than the largest rowid that ever
  existed in the table.
\<close>

definition last_row_id :: "store \<Rightarrow> nat" where
  "last_row_id s = Suc (fold max (map item_id (rows s)) (seq s))"

text \<open>
  The handler binds \<open>name, price, url, image_key, category || 'uncategorized',
  priority || 0\<close> and runs the \<open>INSERT\<close>; \<open>now\<close> is \<open>unixepoch()\<close> at that moment. Only
  the first four values can be \<open>undefined\<close>. There is no check of the body before the
  statement.
\<close>

definition post_items :: "d1_bind \<Rightarrow> int \<Rightarrow> store \<Rightarrow> item_fields \<Rightarrow> store \<times> (error + nat)" where
  "post_items d now s body =
     (if d = RejectsUndefined \<and>
         (f_name body = None \<or> f_price body = None \<or> f_url body = None \<or> f_image_key body = None)
      then (s, Inl D1_TYPE_ERROR)
      else case f_name body of
        None \<Rightarrow> (s, Inl SQLITE_CONSTRAINT)
      | Some n \<Rightarrow>
          (let new = last_row_id s;
               r = \<lparr>item_id = new, name = n, price = f_price body, url = f_url body,
                    image_key = f_image_key body, category = category_or (f_category body),
                    priority = priority_or (f_priority body), created_at = now\<rparr>
           in (\<lparr>rows = rows s @ [r], seq = new\<rparr>, Inr new)))"

section \<open>PUT /api/items/:id\<close>

text \<open>
  One entry of the handler's \<open>updates\<close> array together with its entry of \<open>values\<close>:
  \<open>'name = ?'\<close> with the value to bind, and so on.
\<close>

datatype assignment =
    SetName string
  | SetPrice real
  | SetUrl string
  | SetImageKey string
  | SetCategory string
  | SetPriority int

fun assign :: "assignment \<Rightarrow> item \<Rightarrow> item" where
  "assign (SetName v) r = r\<lparr>name := v\<rparr>"
| "assign (SetPrice v) r = r\<lparr>price := Some v\<rparr>"
| "assign (SetUrl v) r = r\<lparr>url := Some v\<rparr>"
| "assign (SetImageKey v) r = r\<lparr>image_key := Some v\<rparr>"
| "assign (SetCategory v) r = r\<lparr>category := v\<rparr>"
| "assign (SetPriority v) r = r\<lparr>priority := v\<rparr>"

text \<open>The six \<open>if (x !== undefined) { updates.push(...); values.push(x) }\<close>, in order.\<close>

definition push :: "'a option \<Rightarrow> ('a \<Rightarrow> assignment) \<Rightarrow> assignment list" where
  "push x col = (case x of None \<Rightarrow> [] | Some v \<Rightarrow> [col v])"

definition updates :: "item_fields \<Rightarrow> assignment list" where
  "updates body =
     push (f_name body) SetName @ push (f_price body) SetPrice @ push (f_url body) SetUrl @
     push (f_image_key body) SetImageKey @ push (f_category body) SetCategory @
     push (f_priority body) SetPriority"

text \<open>\<open>UPDATE items SET ... WHERE id = ?\<close>: every row with that id gets the assignments.\<close>

definition run_update :: "assignment list \<Rightarrow> nat \<Rightarrow> store \<Rightarrow> store" where
  "run_update as i s =
     s\<lparr>rows := map (\<lambda>r. if item_id r = i then fold assign as r else r) (rows s)\<rparr>"

text \<open>
  The path parameter is the number it spells. With typed fields no bound value is
  \<open>undefined\<close> or \<open>NULL\<close>, so the statement cannot throw and the reply is always
  \<open>{success: true}\<close>.
\<close>

definition put_item :: "store \<Rightarrow> nat \<Rightarrow> item_fields \<Rightarrow> store \<times> (error + unit)" where
  "put_item s i body =
     (if length (updates body) = 0 then (s, Inr ())
      else (run_update (updates body) i s, Inr ()))"

section \<open>The client: drag and drop\<close>

text \<open>The two requests the client sends to the item API, with their JSON body.\<close>

datatype request = PutItem nat item_fields | PostItem item_fields

fun serve :: "d1_bind \<Rightarrow> int \<Rightarrow> store \<Rightarrow> request \<Rightarrow> store" where
  "serve d now s (PutItem i body) = fst (put_item s i body)"
| "serve d now s (PostItem body) = fst (post_items d now s body)"

text \<open>\<open>Array.prototype.findIndex\<close>: the first index whose element passes, else \<open>-1\<close>.\<close>

fun findIndex :: "('a \<Rightarrow> bool) \<Rightarrow> 'a list \<Rightarrow> int" where
  "findIndex P [] = - 1"
| "findIndex P (x # xs) =
     (if P x then 0 else (let k = findIndex P xs in if k < 0 then - 1 else k + 1))"

text \<open>
  The start index of \<open>Array.prototype.splice\<close> on an array of length \<open>len\<close>: a negative
  start counts from the end, and the result is clamped to \<open>0..len\<close>.
\<close>

definition splice_start :: "nat \<Rightarrow> int \<Rightarrow> nat" where
  "splice_start len start =
     (if start < 0 then nat (max (int len + start) 0) else min (nat start) len)"

text \<open>
  \<open>arrayMove\<close> of the drag-and-drop library, which is not part of the repository:
  \<^verbatim>\<open>
  const newArray = array.slice();
  newArray.splice(to < 0 ? newArray.length + to : to, 0, newArray.splice(from, 1)[0]);
  return newArray;
  \<close>
  The first argument of the outer \<open>splice\<close> is evaluated before the inner \<open>splice\<close>
  removes the element, so a negative \<open>to\<close> counts from the end of the whole array. When
  the inner \<open>splice\<close> removes nothing, \<open>undefined\<close> is inserted: the result is a list
  of options, \<open>None\<close> being \<open>undefined\<close>.
\<close>

definition arrayMove :: "'a list \<Rightarrow> int \<Rightarrow> int \<Rightarrow> 'a option list" where
  "arrayMove array from to =
     (let n = length array;
          target = (if to < 0 then int n + to else to);
          k = splice_start n from;
          removed = (if k < n then Some (array ! k) else None);
          rest = (if k < n then take k array @ drop (Suc k) array else array);
          p = splice_start (length rest) target
      in map Some (take p rest) @ [removed] @ map Some (drop p rest))"

text \<open>
  \<open>newItems.forEach((item, index) => fetch(`/api/items/${item.id}`, {method: 'PUT',
  body: JSON.stringify({priority: index})}))\<close>: the requests, in the order they are
  issued. No reply is awaited or looked at.
\<close>

definition save_order :: "item list \<Rightarrow> request list" where
  "save_order newItems =
     map (\<lambda>(index, item). PutItem (item_id item) (no_fields\<lparr>f_priority := Some (int index)\<rparr>))
       (enumerate 0 newItems)"

text \<open>
  What a drag gesture does: nothing when the item is dropped on itself; otherwise the
  new value of the state \<open>items\<close> and the requests issued. \<open>items\<close> is the whole list
  held in the component's state, whatever category is shown. \<open>over\<close> is \<open>None\<close> when
  the item is dropped on no item. Reading \<open>item.id\<close> of \<open>undefined\<close> throws a
  \<open>TypeError\<close> in the loop, after the requests of the items before it.
\<close>

datatype drag_result =
    NoChange
  | Reordered "item list" "request list"
  | TypeError "request list"

definition handleDragEnd :: "item list \<Rightarrow> nat \<Rightarrow> nat option \<Rightarrow> drag_result" where
  "handleDragEnd items active over =
     (if Some active \<noteq> over then
        (let oldIndex = findIndex (\<lambda>i. item_id i = active) items;
             newIndex = findIndex (\<lambda>i. Some (item_id i) = over) items;
             newItems = arrayMove items oldIndex newIndex
         in case those newItems of
              Some new \<Rightarrow> Reordered new (save_order new)
            | None \<Rightarrow> TypeError (save_order (map the (takeWhile (\<lambda>x. x \<noteq> None) newItems))))
      else NoChange)"

text \<open>The items the grid renders under the category filter.\<close>

definition filteredItems :: "string \<Rightarrow> item list \<Rightarrow> item list" where
  "filteredItems activeCategory items =
     (if activeCategory = ''All'' then items
      else filter (\<lambda>i. category i = activeCategory) items)"

text \<open>
  The network between client and server: each request either arrives and is served, or
  fails and changes nothing. The requests touch the store one after the other, in the
  order they were issued.
\<close>

fun deliver :: "d1_bind \<Rightarrow> int \<Rightarrow> store \<Rightarrow> (request \<times> bool) list \<Rightarrow> store" where
  "deliver d now s [] = s"
| "deliver d now s ((req, arrives) # rest) =
     deliver d now (if arrives then serve d now s req else s) rest"

text \<open>
  The target and the body of a request.
\<close>

fun req_id :: "request \<Rightarrow> nat option" where
  "req_id (PutItem i body) = Some i"
| "req_id (PostItem body) = None"

fun req_body :: "request \<Rightarrow> item_fields" where
  "req_body (PutItem i body) = body"
| "req_body (PostItem body) = body"

text \<open>
  What the requests of \<open>save_order\<close> for the items \<open>xs\<close>, numbered from \<open>n\<close>, do to
  one row when all of them arrive, one after the other.
\<close>

fun renumber :: "nat \<Rightarrow> item list \<Rightarrow> item \<Rightarrow> item" where
  "renumber n [] r = r"
| "renumber n (x # xs) r =
     renumber (Suc n) xs (if item_id r = item_id x then r\<lparr>priority := int n\<rparr> else r)"

section \<open>The client: the form\<close>

text \<open>
  \<open>String.prototype.trim\<close> strips white space and line terminators from both ends. A
  \<open>char\<close> is a code unit below 256; the white space in that range is tab, line feed,
  vertical tab, form feed, carriage return, space and no-break space.
\<close>

definition isWhiteSpace :: "char \<Rightarrow> bool" where
  "isWhiteSpace c =
     (c \<in> set [CHR 0x09, CHR 0x0A, CHR 0x0B, CHR 0x0C, CHR 0x0D, CHR 0x20, CHR 0xA0])"

definition trim :: "string \<Rightarrow> string" where
  "trim s = rev (dropWhile isWhiteSpace (rev (dropWhile isWhiteSpace s)))"

text \<open>
  \<open>/^https?:\/\//i.test(s)\<close>: the letters \<open>http\<close> in either case, an optional \<open>s\<close> in
  either case, then \<open>://\<close>, at the start of the string.
\<close>

fun scheme_test :: "string \<Rightarrow> bool" where
  "scheme_test (h # t # t' # p # rest) =
     ((h = CHR ''h'' \<or> h = CHR ''H'') \<and> (t = CHR ''t'' \<or> t = CHR ''T'') \<and>
      (t' = CHR ''t'' \<or> t' = CHR ''T'') \<and> (p = CHR ''p'' \<or> p = CHR ''P'') \<and>
      (take 3 rest = ''://'' \<or>
       (case rest of [] \<Rightarrow> False
        | s # rest' \<Rightarrow> (s = CHR ''s'' \<or> s = CHR ''S'') \<and> take 3 rest' = ''://'')))"
| "scheme_test s = False"

text \<open>
  \<open>let submitUrl = formData.url.trim(); if (submitUrl && !/^https?:\/\//i.test(submitUrl))
  submitUrl = 'https://' + submitUrl\<close>. The empty string is falsy.
\<close>

definition submitUrl :: "string \<Rightarrow> string" where
  "submitUrl u =
     (let t = trim u in if t \<noteq> [] \<and> \<not> scheme_test t then ''https://'' @ t else t)"

text \<open>
  The form's state. \<open>fd_price\<close> is \<open>parseFloat(formData.price)\<close>, the number the
  validated number input spells. \<open>fd_imageFile\<close> is the name of the chosen file, if any.
\<close>

record form_data =
  fd_name :: string
  fd_price :: real
  fd_url :: string
  fd_category :: string
  fd_imageFile :: "string option"
  fd_currentImageKey :: string

text \<open>
  The object key of an uploaded image: \<open>`img-${Date.now()}-${name.replace(/[^a-zA-Z0-9.-]/g, '')}`\<close>,
  \<open>stamp\<close> being \<open>Date.now()\<close> in decimal.
\<close>

definition key_char :: "char \<Rightarrow> bool" where
  "key_char c =
     (let n = (of_char c :: nat)
      in (97 \<le> n \<and> n \<le> 122) \<or> (65 \<le> n \<and> n \<le> 90) \<or> (48 \<le> n \<and> n \<le> 57) \<or>
         c = CHR ''.'' \<or> c = CHR ''-'')"

definition upload_key :: "string \<Rightarrow> string \<Rightarrow> string" where
  "upload_key stamp file_name = ''img-'' @ stamp @ ''-'' @ filter key_char file_name"

text \<open>
  What submitting the form sends: the key of the image uploaded first, if a file was
  chosen, and the request to the item API. Nothing is sent while a submission is under
  way. \<open>items\<close> is the whole list in the component's state and \<open>editingItem\<close> the item
  being edited, if any. The payload carries \<open>priority\<close> only for a new item.
\<close>

record submission =
  sub_upload :: "string option"
  sub_request :: request

definition handleSubmit ::
  "bool \<Rightarrow> string \<Rightarrow> item list \<Rightarrow> item option \<Rightarrow> form_data \<Rightarrow> submission option" where
  "handleSubmit isSubmitting stamp items editingItem formData =
     (if isSubmitting then None
      else
        (let key = map_option (upload_key stamp) (fd_imageFile formData);
             imageKey = (case key of None \<Rightarrow> fd_currentImageKey formData | Some k \<Rightarrow> k);
             payload = \<lparr>f_name = Some (fd_name formData), f_price = Some (fd_price formData),
               f_url = Some (submitUrl (fd_url formData)), f_image_key = Some imageKey,
               f_category = Some (fd_category formData),
               f_priority = (case editingItem of None \<Rightarrow> Some (int (length items))
                             | Some e \<Rightarrow> None)\<rparr>
         in Some \<lparr>sub_upload = key,
              sub_request = (case editingItem of None \<Rightarrow> PostItem payload
                             | Some e \<Rightarrow> PutItem (item_id e) payload)\<rparr>))"

section \<open>The specification's wording, and fixtures\<close>

text \<open>
  A row matches the fields given to an insert: every field given has its value, and
  \<open>category\<close> and \<open>priority\<close> have the default where the field is omitted (or the
  category is empty).
\<close>

definition matches_provided :: "item_fields \<Rightarrow> item \<Rightarrow> bool" where
  "matches_provided body r =
     ((case f_name body of None \<Rightarrow> True | Some v \<Rightarrow> name r = v) \<and>
      (case f_price body of None \<Rightarrow> True | Some v \<Rightarrow> price r = Some v) \<and>
      (case f_url body of None \<Rightarrow> True | Some v \<Rightarrow> url r = Some v) \<and>
      (case f_image_key body of None \<Rightarrow> True | Some v \<Rightarrow> image_key r = Some v) \<and>
      category r = (case f_category body of None \<Rightarrow> ''uncategorized''
         | Some v \<Rightarrow> if v = [] then ''uncategorized'' else v) \<and>
      priority r = (case f_priority body of None \<Rightarrow> 0 | Some v \<Rightarrow> v))"

text \<open>
  The reorder as the specification words it for a filtered view: the positions of the
  dragged item and of the drop target are taken in the rendered (filtered) sequence, and
  one update per item of that sequence carries its index there.
\<close>

definition spec_filtered_requests :: "string \<Rightarrow> item list \<Rightarrow> nat \<Rightarrow> nat option \<Rightarrow> request list" where
  "spec_filtered_requests activeCategory items active over =
     (let rendered = filteredItems activeCategory items
      in case those (arrayMove rendered (findIndex (\<lambda>i. item_id i = active) rendered)
                      (findIndex (\<lambda>i. Some (item_id i) = over) rendered)) of
           Some new \<Rightarrow> save_order new
         | None \<Rightarrow> [])"

text \<open>
  The priorities stored under an id.
\<close>

definition stored_priority :: "store \<Rightarrow> nat \<Rightarrow> int list" where
  "stored_priority s i = map priority (filter (\<lambda>r. item_id r = i) (rows s))"

definition priority_only :: "int \<Rightarrow> item_fields" where
  "priority_only p = no_fields\<lparr>f_priority := Some p\<rparr>"

text \<open>
  Fixtures: an empty table, an item and the fields that insert it, a form, and three
  items \<open>A\<close>, \<open>B\<close>, \<open>C\<close> with priorities 0, 1, 2, of which \<open>B\<close> is in another category.
\<close>

definition empty_store :: store where
  "empty_store = \<lparr>rows = [], seq = 0\<rparr>"

definition lamp :: item where
  "lamp = \<lparr>item_id = 1, name = ''lamp'', price = Some 20, url = Some ''https://a.example'',
     image_key = Some [], category = ''Tech'', priority = 0, created_at = 1000\<rparr>"

definition lamp_fields :: item_fields where
  "lamp_fields = \<lparr>f_name = Some ''lamp'', f_price = Some 20, f_url = Some ''https://a.example'',
     f_image_key = Some [], f_category = Some ''Tech'', f_priority = None\<rparr>"

definition store1 :: store where
  "store1 = \<lparr>rows = [lamp], seq = 1\<rparr>"

definition lamp_form :: form_data where
  "lamp_form = \<lparr>fd_name = ''lamp'', fd_price = 20, fd_url = ''example.com'',
     fd_category = ''Tech'', fd_imageFile = None, fd_currentImageKey = []\<rparr>"

definition item_A :: item where
  "item_A = \<lparr>item_id = 1, name = ''A'', price = Some 5, url = Some ''https://a.example'',
     image_key = Some [], category = ''Toys'', priority = 0, created_at = 100\<rparr>"

definition item_B :: item where
  "item_B = \<lparr>item_id = 2, name = ''B'', price = Some 7, url = Some ''https://b.example'',
     image_key = Some [], category = ''Clothing'', priority = 1, created_at = 200\<rparr>"

definition item_C :: item where
  "item_C = \<lparr>item_id = 3, name = ''C'', price = Some 9, url = Some ''https://c.example'',
     image_key = Some [], category = ''Toys'', priority = 2, created_at = 300\<rparr>"

definition store_ABC :: store where
  "store_ABC = \<lparr>rows = [item_A, item_B, item_C], seq = 3\<rparr>"

section \<open>Properties of the listing\<close>

lemma order_by_total: "\<not> order_by a b \<Longrightarrow> order_by b a"
  by (auto simp: order_by_def)

lemma order_by_trans: "order_by a b \<Longrightarrow> order_by b c \<Longrightarrow> order_by a c"
  by (auto simp: order_by_def)

lemma set_insert_row: "set (insert_row r xs) = insert r (set xs)"
  by (induction xs) auto

lemma mset_insert_row: "mset (insert_row r xs) = add_mset r (mset xs)"
  by (induction xs) auto

lemma sorted_insert_row:
  "sorted_wrt order_by xs \<Longrightarrow> sorted_wrt order_by (insert_row r xs)"
proof (induction xs)
  case Nil
  then show ?case by simp
next
  case (Cons x xs)
  show ?case
  proof (cases "order_by r x")
    case True
    with Cons.prems show ?thesis
      by (auto intro: order_by_trans)
  next
    case False
    then have "order_by x r" by (rule order_by_total)
    with False Cons show ?thesis
      by (auto simp: set_insert_row)
  qed
qed

lemma sorted_foldr_insert_row: "sorted_wrt order_by (foldr insert_row xs [])"
  by (induction xs) (simp_all add: sorted_insert_row)

lemma mset_foldr_insert_row: "mset (foldr insert_row xs []) = mset xs"
  by (induction xs) (simp_all add: mset_insert_row)

lemma mset_listAll: "mset (listAll s) = mset (rows s)"
  by (simp add: listAll_def mset_foldr_insert_row)

text \<open>
  C5. For every store state, whatever the order of the rows and whatever priorities
  they carry (duplicates included), \<open>listAll\<close> returns all the rows, each as often as
  it is stored, and every row of the result stands before the later ones in the order
  priority ascending, then \<open>created_at\<close> descending.
\<close>

theorem listAll_sorted:
  "sorted_wrt order_by (listAll s) \<and> mset (listAll s) = mset (rows s)"
  by (simp add: listAll_def sorted_foldr_insert_row mset_foldr_insert_row)

section \<open>Properties of the update\<close>

lemma fold_assign_updates:
  "fold assign (updates body) r =
     r\<lparr>name := (case f_name body of None \<Rightarrow> name r | Some v \<Rightarrow> v),
       price := (case f_price body of None \<Rightarrow> price r | Some v \<Rightarrow> Some v),
       url := (case f_url body of None \<Rightarrow> url r | Some v \<Rightarrow> Some v),
       image_key := (case f_image_key body of None \<Rightarrow> image_key r | Some v \<Rightarrow> Some v),
       category := (case f_category body of None \<Rightarrow> category r | Some v \<Rightarrow> v),
       priority := (case f_priority body of None \<Rightarrow> priority r | Some v \<Rightarrow> v)\<rparr>"
  by (simp add: updates_def push_def split: option.splits)

lemma updates_no_fields: "updates no_fields = []"
  by (simp add: updates_def push_def no_fields_def)

lemma put_item_rows:
  "rows (fst (put_item s i b)) =
     map (\<lambda>r. if item_id r = i then fold assign (updates b) r else r) (rows s)"
proof (cases "updates b = []")
  case True
  then show ?thesis by (simp add: put_item_def map_idI)
next
  case False
  then show ?thesis by (simp add: put_item_def run_update_def)
qed

lemma put_priority_rows:
  "rows (fst (put_item s i (no_fields\<lparr>f_priority := Some p\<rparr>))) =
   map (\<lambda>r. if item_id r = i then r\<lparr>priority := p\<rparr> else r) (rows s)"
  by (simp add: put_item_def updates_def push_def no_fields_def run_update_def)

lemma priority_fold_assign:
  "f_priority body = None \<Longrightarrow> priority (fold assign (updates body) r) = priority r"
  by (simp add: updates_def push_def split: option.splits)

lemma put_item_keeps_priority:
  "f_priority body = None \<Longrightarrow>
   map priority (rows (fst (put_item s i body))) = map priority (rows s)"
  by (simp add: put_item_def run_update_def priority_fold_assign)

lemma put_item_url:
  assumes "f_url body = Some u" and "r \<in> set (rows (fst (put_item s i body)))"
    and "item_id r = i"
  shows "url r = Some u"
proof -
  from assms(2) obtain r0 where r0: "r0 \<in> set (rows s)"
    and r: "r = (if item_id r0 = i then fold assign (updates body) r0 else r0)"
    unfolding put_item_rows by auto
  have id: "item_id (fold assign (updates body) r0) = item_id r0"
    by (simp add: fold_assign_updates)
  from r id assms(3) have "item_id r0 = i" by (simp split: if_splits)
  with r have "r = fold assign (updates body) r0" by simp
  then show ?thesis by (simp add: fold_assign_updates assms(1))
qed

text \<open>
  C6. An update writes exactly the fields present in its body: in every row with the
  given id each field that is present takes the value given, an empty string included,
  and each absent field keeps its value; the other rows, the ids and the creation times
  are untouched and the reply is success. With no field at all the store is returned as
  it is, so the listing is unchanged.
\<close>

theorem put_item_writes_present_fields:
  "snd (put_item s i body) = Inr () \<and>
   seq (fst (put_item s i body)) = seq s \<and>
   rows (fst (put_item s i body)) =
     map (\<lambda>r. if item_id r = i then
       r\<lparr>name := (case f_name body of None \<Rightarrow> name r | Some v \<Rightarrow> v),
       price := (case f_price body of None \<Rightarrow> price r | Some v \<Rightarrow> Some v),
       url := (case f_url body of None \<Rightarrow> url r | Some v \<Rightarrow> Some v),
       image_key := (case f_image_key body of None \<Rightarrow> image_key r | Some v \<Rightarrow> Some v),
       category := (case f_category body of None \<Rightarrow> category r | Some v \<Rightarrow> v),
       priority := (case f_priority body of None \<Rightarrow> priority r | Some v \<Rightarrow> v)\<rparr>
       else r) (rows s) \<and>
   rows (fst (put_item s i (no_fields\<lparr>f_name := Some []\<rparr>))) =
     map (\<lambda>r. if item_id r = i then r\<lparr>name := []\<rparr> else r) (rows s) \<and>
   put_item s i no_fields = (s, Inr ()) \<and>
   listAll (fst (put_item s i no_fields)) = listAll s"
proof -
  have a: "snd (put_item s i body) = Inr ()" by (simp add: put_item_def)
  have b: "seq (fst (put_item s i body)) = seq s" by (simp add: put_item_def run_update_def)
  note c = put_item_rows
  have d: "put_item s i no_fields = (s, Inr ())" by (simp add: put_item_def updates_no_fields)
  have e: "fold assign (updates (no_fields\<lparr>f_name := Some []\<rparr>)) r = r\<lparr>name := []\<rparr>" for r
    by (simp add: updates_def push_def no_fields_def)
  have f: "listAll (fst (put_item s i no_fields)) = listAll s" by (simp add: d)
  note c1 = c [of s i body, unfolded fold_assign_updates]
  note c2 = c [of s i "no_fields\<lparr>f_name := Some []\<rparr>", unfolded e]
  from a b c1 c2 d f show ?thesis by blast
qed

text \<open>
  C7. An update whose id is the id of no row answers success, creates no row and leaves
  the store as it is.
\<close>

theorem put_item_unknown_id:
  "i \<notin> item_id ` set (rows s) \<Longrightarrow> put_item s i body = (s, Inr ())"
proof -
  assume h: "i \<notin> item_id ` set (rows s)"
  have "map (\<lambda>r. if item_id r = i then fold assign (updates body) r else r) (rows s) = rows s"
    using h by (intro map_idI) auto
  then show ?thesis by (simp add: put_item_def run_update_def)
qed

text \<open>
  Witness for C7: the table holds the row with id 1 only, and the update names id 2.
\<close>

theorem put_item_unknown_id_witness:
  "2 \<notin> item_id ` set (rows store1) \<and>
   put_item store1 2 (no_fields\<lparr>f_name := Some ''desk'', f_priority := Some 4\<rparr>) = (store1, Inr ())"
  using put_item_unknown_id [of 2 store1 "no_fields\<lparr>f_name := Some ''desk'', f_priority := Some 4\<rparr>"]
  by (simp add: store1_def lamp_def)

section \<open>Properties of the insert\<close>

lemma fold_max_init: "a \<le> fold max xs (a::nat)"
proof (induction xs arbitrary: a)
  case Nil
  show ?case by simp
next
  case (Cons x xs)
  have "a \<le> max x a" by simp
  also have "\<dots> \<le> fold max xs (max x a)" by (rule Cons.IH)
  finally show ?case by simp
qed

lemma fold_max_member: "x \<in> set xs \<Longrightarrow> x \<le> fold max xs (a::nat)"
proof (induction xs arbitrary: a)
  case Nil
  then show ?case by simp
next
  case (Cons y ys)
  show ?case
  proof (cases "x = y")
    case True
    have "x \<le> max y a" using True by simp
    also have "\<dots> \<le> fold max ys (max y a)" by (rule fold_max_init)
    finally show ?thesis by simp
  next
    case False
    with Cons.prems have "x \<in> set ys" by simp
    then show ?thesis by (simp add: Cons.IH)
  qed
qed

lemma last_row_id_fresh: "r \<in> set (rows s) \<Longrightarrow> item_id r < last_row_id s"
  using fold_max_member [of "item_id r" "map item_id (rows s)" "seq s"]
  by (simp add: last_row_id_def less_Suc_eq_le)

lemma post_items_no_name:
  "f_name body = None \<Longrightarrow> \<exists>e. post_items d now s body = (s, Inl e)"
  by (simp add: post_items_def)

lemma post_items_rejects:
  "f_price body = None \<Longrightarrow> post_items RejectsUndefined now s body = (s, Inl D1_TYPE_ERROR)"
  by (simp add: post_items_def)

lemma post_items_Inr:
  assumes "post_items d now s body = (s', Inr new)"
  shows "new = last_row_id s \<and> (\<exists>n. f_name body = Some n \<and>
     s' = \<lparr>rows = rows s @ [\<lparr>item_id = new, name = n, price = f_price body, url = f_url body,
        image_key = f_image_key body, category = category_or (f_category body),
        priority = priority_or (f_priority body), created_at = now\<rparr>], seq = new\<rparr>)"
  using assms by (auto simp: post_items_def Let_def split: if_splits option.splits)

lemma post_items_accepts:
  assumes "f_name body = Some n"
    and "d = UndefinedAsNull \<or> (f_price body \<noteq> None \<and> f_url body \<noteq> None \<and> f_image_key body \<noteq> None)"
  shows "post_items d now s body =
     (\<lparr>rows = rows s @ [\<lparr>item_id = last_row_id s, name = n, price = f_price body, url = f_url body,
        image_key = f_image_key body, category = category_or (f_category body),
        priority = priority_or (f_priority body), created_at = now\<rparr>], seq = last_row_id s\<rparr>,
      Inr (last_row_id s))"
  using assms by (auto simp: post_items_def Let_def)

lemma post_items_full:
  "post_items d now s \<lparr>f_name = Some n, f_price = Some p, f_url = Some u, f_image_key = Some k,
      f_category = c, f_priority = q\<rparr> =
   (\<lparr>rows = rows s @ [\<lparr>item_id = last_row_id s, name = n, price = Some p, url = Some u,
       image_key = Some k, category = category_or c, priority = priority_or q,
       created_at = now\<rparr>], seq = last_row_id s\<rparr>, Inr (last_row_id s))"
  by (simp add: post_items_def Let_def)

text \<open>
  C2, as the code has it. The handler validates nothing. An insert without \<open>name\<close>
  creates no row and fails with an exception of the database client, which is a server
  error (status 500), not a client error. An insert without \<open>price\<close> fails in the same
  way when the database client rejects \<open>undefined\<close>, and otherwise stores a row whose
  price is \<open>NULL\<close>. An insert with \<open>name\<close> and \<open>price\<close> succeeds, adds one row and returns
  its fresh id, provided \<open>url\<close> and \<open>image_key\<close> are given too or the database client
  binds \<open>undefined\<close> as \<open>NULL\<close>.
\<close>

theorem post_items_outcome:
  "(f_name body = None \<longrightarrow>
      fst (post_items d now s body) = s \<and> http_status (snd (post_items d now s body)) = 500 \<and>
      \<not> client_error (http_status (snd (post_items d now s body)))) \<and>
   (f_price body = None \<and> d = RejectsUndefined \<longrightarrow>
      fst (post_items d now s body) = s \<and> http_status (snd (post_items d now s body)) = 500) \<and>
   (f_price body = None \<and> d = UndefinedAsNull \<and> f_name body \<noteq> None \<longrightarrow>
      snd (post_items d now s body) = Inr (last_row_id s) \<and>
      length (rows (fst (post_items d now s body))) = Suc (length (rows s))) \<and>
   (f_name body \<noteq> None \<and> f_price body \<noteq> None \<and>
      (d = UndefinedAsNull \<or> (f_url body \<noteq> None \<and> f_image_key body \<noteq> None)) \<longrightarrow>
      snd (post_items d now s body) = Inr (last_row_id s) \<and>
      length (rows (fst (post_items d now s body))) = Suc (length (rows s)) \<and>
      last_row_id s \<notin> item_id ` set (rows s) \<and>
      last_row_id s \<in> item_id ` set (rows (fst (post_items d now s body))))"
proof (intro conjI impI)
  assume "f_name body = None"
  then obtain e where e: "post_items d now s body = (s, Inl e)"
    using post_items_no_name by blast
  show "fst (post_items d now s body) = s" by (simp add: e)
  show "http_status (snd (post_items d now s body)) = 500" by (simp add: e)
  show "\<not> client_error (http_status (snd (post_items d now s body)))"
    by (simp add: e client_error_def)
next
  assume h: "f_price body = None \<and> d = RejectsUndefined"
  then have e: "post_items d now s body = (s, Inl D1_TYPE_ERROR)"
    by (simp add: post_items_rejects)
  show "fst (post_items d now s body) = s" by (simp add: e)
  show "http_status (snd (post_items d now s body)) = 500" by (simp add: e)
next
  assume h: "f_price body = None \<and> d = UndefinedAsNull \<and> f_name body \<noteq> None"
  then obtain n where n: "f_name body = Some n" by auto
  from h have ok: "d = UndefinedAsNull \<or>
      (f_price body \<noteq> None \<and> f_url body \<noteq> None \<and> f_image_key body \<noteq> None)" by blast
  note e = post_items_accepts [OF n ok, of now s]
  show "snd (post_items d now s body) = Inr (last_row_id s)" by (simp add: e)
  show "length (rows (fst (post_items d now s body))) = Suc (length (rows s))"
    by (simp add: e)
next
  assume h: "f_name body \<noteq> None \<and> f_price body \<noteq> None \<and>
      (d = UndefinedAsNull \<or> (f_url body \<noteq> None \<and> f_image_key body \<noteq> None))"
  then obtain n where n: "f_name body = Some n" by auto
  from h have ok: "d = UndefinedAsNull \<or>
      (f_price body \<noteq> None \<and> f_url body \<noteq> None \<and> f_image_key body \<noteq> None)" by blast
  note e = post_items_accepts [OF n ok, of now s]
  show "snd (post_items d now s body) = Inr (last_row_id s)" by (simp add: e)
  show "length (rows (fst (post_items d now s body))) = Suc (length (rows s))" by (simp add: e)
  show "last_row_id s \<notin> item_id ` set (rows s)" using last_row_id_fresh [of _ s] by fastforce
  show "last_row_id s \<in> item_id ` set (rows (fst (post_items d now s body)))"
    by (simp add: e)
qed

text \<open>
  Witness for C2: the lamp without its name, without its price under either database
  client, and with all its fields.
\<close>

theorem post_items_outcome_witness:
  "fst (post_items UndefinedAsNull 1000 empty_store (lamp_fields\<lparr>f_name := None\<rparr>)) = empty_store \<and>
   http_status (snd (post_items UndefinedAsNull 1000 empty_store (lamp_fields\<lparr>f_name := None\<rparr>))) = 500 \<and>
   fst (post_items RejectsUndefined 1000 empty_store (lamp_fields\<lparr>f_price := None\<rparr>)) = empty_store \<and>
   snd (post_items UndefinedAsNull 1000 empty_store (lamp_fields\<lparr>f_price := None\<rparr>)) = Inr 1 \<and>
   snd (post_items RejectsUndefined 1000 empty_store lamp_fields) = Inr 1 \<and>
   length (rows (fst (post_items RejectsUndefined 1000 empty_store lamp_fields))) = 1"
  using post_items_outcome [of "lamp_fields\<lparr>f_name := None\<rparr>" UndefinedAsNull 1000 empty_store]
    post_items_outcome [of "lamp_fields\<lparr>f_price := None\<rparr>" RejectsUndefined 1000 empty_store]
    post_items_outcome [of "lamp_fields\<lparr>f_price := None\<rparr>" UndefinedAsNull 1000 empty_store]
    post_items_outcome [of lamp_fields RejectsUndefined 1000 empty_store]
  by (simp add: lamp_fields_def empty_store_def last_row_id_def)

text \<open>
  Counterexample to C2 as stated: without \<open>name\<close> the insert ends in status 500 under
  either database client, which is no client error; without \<open>price\<close> a row is created
  when \<open>undefined\<close> is bound as \<open>NULL\<close>; and with \<open>name\<close> and \<open>price\<close> but no \<open>image_key\<close>
  the insert fails when the database client rejects \<open>undefined\<close>.
\<close>

theorem post_items_no_validation_counterexample:
  "post_items RejectsUndefined 1000 empty_store (lamp_fields\<lparr>f_name := None\<rparr>)
     = (empty_store, Inl D1_TYPE_ERROR) \<and>
   post_items UndefinedAsNull 1000 empty_store (lamp_fields\<lparr>f_name := None\<rparr>)
     = (empty_store, Inl SQLITE_CONSTRAINT) \<and>
   http_status (Inl D1_TYPE_ERROR :: error + nat) = 500 \<and>
   http_status (Inl SQLITE_CONSTRAINT :: error + nat) = 500 \<and>
   \<not> client_error 500 \<and>
   post_items UndefinedAsNull 1000 empty_store (lamp_fields\<lparr>f_price := None\<rparr>)
     = (\<lparr>rows = [lamp\<lparr>price := None\<rparr>], seq = 1\<rparr>, Inr 1) \<and>
   post_items RejectsUndefined 1000 empty_store (lamp_fields\<lparr>f_image_key := None\<rparr>)
     = (empty_store, Inl D1_TYPE_ERROR)"
  by (simp add: post_items_def empty_store_def lamp_fields_def lamp_def last_row_id_def
      category_or_def priority_or_def client_error_def)

lemma matches_provided_inserted:
  "f_name body = Some n \<Longrightarrow>
   matches_provided body \<lparr>item_id = new, name = n, price = f_price body, url = f_url body,
        image_key = f_image_key body, category = category_or (f_category body),
        priority = priority_or (f_priority body), created_at = now\<rparr>"
  by (simp add: matches_provided_def category_or_def priority_or_def split: option.splits)

lemma filter_eq_single:
  assumes "mset xs = add_mset r (mset ys)" and "P r" and "\<forall>y\<in>set ys. \<not> P y"
  shows "filter P xs = [r]"
proof -
  have "mset (filter P xs) = filter_mset P (mset xs)" by (rule mset_filter)
  also have "\<dots> = filter_mset P (add_mset r (mset ys))" by (simp only: assms(1))
  also have "\<dots> = add_mset r (filter_mset P (mset ys))" using assms(2) by simp
  also have "filter_mset P (mset ys) = {#}" using assms(3) by simp
  finally have "mset (filter P xs) = {#r#}" .
  then show ?thesis by (simp only: mset_single_iff)
qed

text \<open>
  C8, as the code has it. After an insert that succeeds, the listing holds exactly one
  item with the id returned; that item matches all fields given, with category
  \<open>uncategorized\<close> when the category was omitted or empty and priority 0 when the
  priority was omitted; and the other items of the listing are those listed before.
\<close>

theorem insert_then_listAll:
  assumes "post_items d now s body = (s', Inr new)"
  shows "\<exists>r. filter (\<lambda>x. item_id x = new) (listAll s') = [r] \<and>
     matches_provided body r \<and>
     category r = (if f_category body = None \<or> f_category body = Some []
                   then ''uncategorized'' else the (f_category body)) \<and>
     priority r = (case f_priority body of None \<Rightarrow> 0 | Some p \<Rightarrow> p) \<and>
     mset (listAll s') = add_mset r (mset (listAll s))"
proof -
  from post_items_Inr [OF assms] obtain n where
    new: "new = last_row_id s" and n: "f_name body = Some n" and
    s': "s' = \<lparr>rows = rows s @ [\<lparr>item_id = new, name = n, price = f_price body, url = f_url body,
        image_key = f_image_key body, category = category_or (f_category body),
        priority = priority_or (f_priority body), created_at = now\<rparr>], seq = new\<rparr>"
    by blast
  define r where "r = \<lparr>item_id = new, name = n, price = f_price body, url = f_url body,
        image_key = f_image_key body, category = category_or (f_category body),
        priority = priority_or (f_priority body), created_at = now\<rparr>"
  have m: "mset (listAll s') = add_mset r (mset (listAll s))"
    by (simp add: mset_listAll s' r_def)
  have fresh: "\<forall>y\<in>set (listAll s). \<not> item_id y = new"
  proof
    fix y assume "y \<in> set (listAll s)"
    then have "y \<in># mset (listAll s)" by simp
    then have "y \<in> set (rows s)" by (simp add: mset_listAll)
    then show "\<not> item_id y = new" using last_row_id_fresh [of y s] new by simp
  qed
  have "item_id r = new" by (simp add: r_def)
  with m fresh have f: "filter (\<lambda>x. item_id x = new) (listAll s') = [r]"
    by (intro filter_eq_single [where ys = "listAll s"]) auto
  have mp: "matches_provided body r" unfolding r_def by (rule matches_provided_inserted [OF n])
  have c: "category r = (if f_category body = None \<or> f_category body = Some []
                   then ''uncategorized'' else the (f_category body))"
    by (auto simp: r_def category_or_def split: option.splits)
  have p: "priority r = (case f_priority body of None \<Rightarrow> 0 | Some p \<Rightarrow> p)"
    by (simp add: r_def priority_or_def split: option.splits)
  from f mp c p m show ?thesis by blast
qed

text \<open>
  Witness for C8: a name and an empty category inserted into the empty table.
\<close>

theorem insert_then_listAll_witness:
  "post_items UndefinedAsNull 1000 empty_store (no_fields\<lparr>f_name := Some ''lamp'', f_category := Some []\<rparr>) =
     (\<lparr>rows = [\<lparr>item_id = 1, name = ''lamp'', price = None, url = None, image_key = None,
        category = ''uncategorized'', priority = 0, created_at = 1000\<rparr>], seq = 1\<rparr>, Inr 1) \<and>
   (\<exists>r. filter (\<lambda>x. item_id x = 1) (listAll \<lparr>rows = [\<lparr>item_id = 1, name = ''lamp'', price = None,
        url = None, image_key = None, category = ''uncategorized'', priority = 0,
        created_at = 1000\<rparr>], seq = 1\<rparr>) = [r] \<and>
      category r = ''uncategorized'' \<and> priority r = 0)"
proof -
  have h: "post_items UndefinedAsNull 1000 empty_store (no_fields\<lparr>f_name := Some ''lamp'', f_category := Some []\<rparr>) =
     (\<lparr>rows = [\<lparr>item_id = 1, name = ''lamp'', price = None, url = None, image_key = None,
        category = ''uncategorized'', priority = 0, created_at = 1000\<rparr>], seq = 1\<rparr>, Inr 1)"
    by (simp add: post_items_def no_fields_def empty_store_def last_row_id_def category_or_def
        priority_or_def)
  from insert_then_listAll [OF h] h show ?thesis
    by (auto simp: no_fields_def)
qed

text \<open>
  Counterexample to C8 as stated: the table already holds a lamp; inserting the same
  fields again gives a listing in which two items match all the fields given.
\<close>

theorem insert_duplicate_counterexample:
  "post_items RejectsUndefined 2000 \<lparr>rows = [lamp], seq = 1\<rparr> lamp_fields =
     (\<lparr>rows = [lamp, lamp\<lparr>item_id := 2, created_at := 2000\<rparr>], seq = 2\<rparr>, Inr 2) \<and>
   listAll \<lparr>rows = [lamp, lamp\<lparr>item_id := 2, created_at := 2000\<rparr>], seq = 2\<rparr> =
     [lamp\<lparr>item_id := 2, created_at := 2000\<rparr>, lamp] \<and>
   filter (matches_provided lamp_fields) [lamp\<lparr>item_id := 2, created_at := 2000\<rparr>, lamp] =
     [lamp\<lparr>item_id := 2, created_at := 2000\<rparr>, lamp] \<and>
   length (filter (matches_provided lamp_fields)
     (listAll (fst (post_items RejectsUndefined 2000 \<lparr>rows = [lamp], seq = 1\<rparr> lamp_fields)))) \<noteq> 1"
  by (simp add: post_items_def lamp_fields_def lamp_def last_row_id_def listAll_def order_by_def
      category_or_def priority_or_def matches_provided_def)

section \<open>Properties of the drag\<close>

lemma findIndex_range: "- 1 \<le> findIndex P xs \<and> findIndex P xs < int (length xs)"
  by (induction xs) (auto simp: Let_def)

lemma those_map_Some: "those (map Some ys) = Some ys"
  by (induction ys) auto

lemma mset_take_drop_nth:
  "k < length xs \<Longrightarrow> add_mset (xs ! k) (mset (take k xs) + mset (drop (Suc k) xs)) = mset xs"
proof -
  assume k: "k < length xs"
  have "mset xs = mset (take k xs @ xs ! k # drop (Suc k) xs)"
    using id_take_nth_drop [OF k] by simp
  then show ?thesis by simp
qed

lemma splice_start_valid:
  "xs \<noteq> [] \<Longrightarrow> - 1 \<le> from \<Longrightarrow> from < int (length xs) \<Longrightarrow> splice_start (length xs) from < length xs"
  by (cases xs) (auto simp: splice_start_def)

lemma arrayMove_perm:
  assumes "xs \<noteq> []" "- 1 \<le> from" "from < int (length xs)"
  shows "\<exists>ys. arrayMove xs from to = map Some ys \<and> mset ys = mset xs"
proof -
  define k where "k = splice_start (length xs) from"
  define rest where "rest = take k xs @ drop (Suc k) xs"
  define p where "p = splice_start (length rest) (if to < 0 then int (length xs) + to else to)"
  have k: "k < length xs" unfolding k_def by (rule splice_start_valid [OF assms])
  have "arrayMove xs from to = map Some (take p rest @ [xs ! k] @ drop p rest)"
    using k by (simp add: arrayMove_def Let_def k_def [symmetric] rest_def [symmetric] p_def [symmetric])
  moreover have "mset (take p rest @ [xs ! k] @ drop p rest) = mset xs"
  proof -
    have split: "mset (take p rest) + mset (drop p rest) = mset rest"
      by (metis append_take_drop_id mset_append)
    have "mset (take p rest @ [xs ! k] @ drop p rest) =
        add_mset (xs ! k) (mset (take p rest) + mset (drop p rest))"
      by simp
    also have "\<dots> = add_mset (xs ! k) (mset rest)" by (simp only: split)
    also have "\<dots> = mset xs" using mset_take_drop_nth [OF k] by (simp add: rest_def)
    finally show ?thesis .
  qed
  ultimately show ?thesis by blast
qed

lemma handleDragEnd_Reordered:
  assumes "handleDragEnd items a ov = Reordered new reqs"
  shows "Some a \<noteq> ov \<and> reqs = save_order new \<and> mset new = mset items \<and>
     map Some new = arrayMove items (findIndex (\<lambda>i. item_id i = a) items)
       (findIndex (\<lambda>i. Some (item_id i) = ov) items)"
proof -
  let ?from = "findIndex (\<lambda>i. item_id i = a) items"
  let ?to = "findIndex (\<lambda>i. Some (item_id i) = ov) items"
  from assms have ne: "Some a \<noteq> ov" by (auto simp: handleDragEnd_def split: if_splits)
  from assms ne have th: "those (arrayMove items ?from ?to) = Some new" and r: "reqs = save_order new"
    by (auto simp: handleDragEnd_def Let_def split: option.splits)
  have "items \<noteq> []"
  proof
    assume "items = []"
    then have "those (arrayMove items ?from ?to) = None"
      by (simp add: arrayMove_def splice_start_def)
    with th show False by simp
  qed
  from arrayMove_perm [OF this, of ?from ?to] findIndex_range [of "\<lambda>i. item_id i = a" items]
  obtain ys where ys: "arrayMove items ?from ?to = map Some ys" "mset ys = mset items" by blast
  with th have "ys = new" by (simp add: those_map_Some)
  with ys ne r show ?thesis by simp
qed

lemma length_save_order: "length (save_order new) = length new"
  by (simp add: save_order_def)

lemma nth_save_order:
  "k < length new \<Longrightarrow>
   save_order new ! k = PutItem (item_id (new ! k)) (no_fields\<lparr>f_priority := Some (int k)\<rparr>)"
  by (simp add: save_order_def nth_enumerate_eq)

lemma req_id_save_order: "map req_id (save_order new) = map (Some \<circ> item_id) new"
  by (rule nth_equalityI) (simp_all add: length_save_order nth_save_order)

lemma req_priority_save_order:
  "map (f_priority \<circ> req_body) (save_order new) = map (Some \<circ> int) [0..<length new]"
  by (rule nth_equalityI) (simp_all add: length_save_order nth_save_order)

text \<open>
  Two updates of the priority under different ids reach the same store in either order:
  for items with distinct ids the order in which the requests of a reorder arrive does
  not matter.
\<close>

lemma put_priority_commute:
  assumes "i \<noteq> j"
  shows "rows (serve d now (serve d now s (PutItem i (no_fields\<lparr>f_priority := Some p\<rparr>)))
           (PutItem j (no_fields\<lparr>f_priority := Some q\<rparr>))) =
         rows (serve d now (serve d now s (PutItem j (no_fields\<lparr>f_priority := Some q\<rparr>)))
           (PutItem i (no_fields\<lparr>f_priority := Some p\<rparr>)))"
  using assms by (simp add: put_priority_rows)

lemma deliver_all_enumerate:
  "rows (deliver d now s (map (\<lambda>r. (r, True))
     (map (\<lambda>(index, item). PutItem (item_id item) (no_fields\<lparr>f_priority := Some (int index)\<rparr>))
        (enumerate n new)))) =
   map (renumber n new) (rows s)"
proof (induction new arbitrary: s n)
  case Nil
  show ?case by simp
next
  case (Cons x xs)
  let ?s1 = "fst (put_item s (item_id x) (no_fields\<lparr>f_priority := Some (int n)\<rparr>))"
  have "rows (deliver d now s (map (\<lambda>r. (r, True))
     (map (\<lambda>(index, item). PutItem (item_id item) (no_fields\<lparr>f_priority := Some (int index)\<rparr>))
        (enumerate n (x # xs))))) =
     rows (deliver d now ?s1 (map (\<lambda>r. (r, True))
     (map (\<lambda>(index, item). PutItem (item_id item) (no_fields\<lparr>f_priority := Some (int index)\<rparr>))
        (enumerate (Suc n) xs))))"
    by (simp del: map_map)
  also have "\<dots> = map (renumber (Suc n) xs) (rows ?s1)" by (rule Cons.IH)
  also have "\<dots> = map (renumber n (x # xs)) (rows s)"
    by (simp add: put_priority_rows)
  finally show ?case .
qed

lemma deliver_all_save_order:
  "rows (deliver d now s (map (\<lambda>r. (r, True)) (save_order new))) = map (renumber 0 new) (rows s)"
  unfolding save_order_def by (rule deliver_all_enumerate)

lemma item_id_renumber: "item_id (renumber n xs r) = item_id r"
  by (induction xs arbitrary: n r) auto

lemma renumber_other: "item_id r \<notin> item_id ` set xs \<Longrightarrow> renumber n xs r = r"
  by (induction xs arbitrary: n) auto

lemma priority_renumber:
  "distinct (map item_id xs) \<Longrightarrow> k < length xs \<Longrightarrow> item_id r = item_id (xs ! k) \<Longrightarrow>
   priority (renumber n xs r) = int (n + k)"
proof (induction xs arbitrary: n k r)
  case Nil
  then show ?case by simp
next
  case (Cons x xs)
  show ?case
  proof (cases k)
    case 0
    with Cons.prems have "item_id r = item_id x" by simp
    moreover from Cons.prems have "item_id x \<notin> item_id ` set xs" by simp
    ultimately show ?thesis using 0 by (simp add: renumber_other)
  next
    case (Suc j)
    with Cons.prems have j: "j < length xs" and r: "item_id r = item_id (xs ! j)" by simp_all
    from Cons.prems have d: "distinct (map item_id xs)" and "item_id x \<notin> item_id ` set xs"
      by simp_all
    with j r have "item_id r \<noteq> item_id x" by (metis image_eqI nth_mem)
    then show ?thesis using Cons.IH [OF d j r, of "Suc n"] Suc by simp
  qed
qed

lemma distinct_ids_perm:
  "mset new = mset items \<Longrightarrow> distinct (map item_id items) \<Longrightarrow> distinct (map item_id new)"
proof -
  assume m: "mset new = mset items" and d: "distinct (map item_id items)"
  have "mset (map item_id new) = mset (map item_id items)" using m by (metis mset_map)
  then show ?thesis using d by (metis mset_eq_imp_distinct_iff)
qed

lemma length_3: "length xs = 3 \<Longrightarrow> \<exists>p q r. xs = [p, q, r]"
  by (auto simp: numeral_3_eq_3 length_Suc_conv)

text \<open>
  The drag of the fixtures: \<open>A\<close> is dropped on \<open>C\<close>.
\<close>

lemma findIndex_A: "findIndex (\<lambda>i. item_id i = 1) [item_A, item_B, item_C] = 0"
  by (simp add: item_A_def)

lemma findIndex_C: "findIndex (\<lambda>i. Some (item_id i) = Some 3) [item_A, item_B, item_C] = 2"
  by (simp add: item_A_def item_B_def item_C_def)

lemma arrayMove_first_to_last: "arrayMove [a, b, c] 0 2 = [Some b, Some c, Some a]"
  by (simp add: arrayMove_def splice_start_def Let_def)

lemma save_order_3: "save_order [x, y, z] =
   [PutItem (item_id x) (priority_only 0), PutItem (item_id y) (priority_only 1),
    PutItem (item_id z) (priority_only 2)]"
  by (simp add: save_order_def priority_only_def)

lemma drag_A_onto_C:
  "handleDragEnd [item_A, item_B, item_C] 1 (Some 3) =
     Reordered [item_B, item_C, item_A]
       [PutItem 2 (priority_only 0), PutItem 3 (priority_only 1), PutItem 1 (priority_only 2)]"
proof -
  have "handleDragEnd [item_A, item_B, item_C] 1 (Some 3) =
     Reordered [item_B, item_C, item_A] (save_order [item_B, item_C, item_A])"
    unfolding handleDragEnd_def findIndex_A findIndex_C Let_def arrayMove_first_to_last by simp
  then show ?thesis unfolding save_order_3 by (simp add: item_A_def item_B_def item_C_def)
qed

lemma filtered_fixture: "filteredItems ''Toys'' [item_A, item_B, item_C] = [item_A, item_C]"
  by (simp add: filteredItems_def item_A_def item_B_def item_C_def)

lemma spec_fixture:
  "spec_filtered_requests ''Toys'' [item_A, item_B, item_C] 1 (Some 3) =
     [PutItem 3 (priority_only 0), PutItem 1 (priority_only 1)]"
proof -
  have a: "findIndex (\<lambda>i. item_id i = 1) [item_A, item_C] = 0" by (simp add: item_A_def)
  have b: "findIndex (\<lambda>i. Some (item_id i) = Some 3) [item_A, item_C] = 1"
    by (simp add: item_A_def item_C_def)
  have c: "arrayMove [item_A, item_C] 0 1 = [Some item_C, Some item_A]"
    by (simp add: arrayMove_def splice_start_def Let_def)
  have d: "save_order [item_C, item_A] = [PutItem 3 (priority_only 0), PutItem 1 (priority_only 1)]"
    by (simp add: save_order_def priority_only_def item_A_def item_C_def)
  show ?thesis unfolding spec_filtered_requests_def filtered_fixture Let_def a b c by (simp add: d)
qed

lemma distinct_ABC: "distinct (map item_id [item_A, item_B, item_C])"
  by (simp add: item_A_def item_B_def item_C_def)

lemma deliver_ABC:
  "rows (deliver d now store_ABC
      [(PutItem 2 (priority_only 0), True), (PutItem 3 (priority_only 1), True),
       (PutItem 1 (priority_only 2), True)]) =
   [item_A\<lparr>priority := 2\<rparr>, item_B\<lparr>priority := 0\<rparr>, item_C\<lparr>priority := 1\<rparr>]"
  by (simp add: priority_only_def put_priority_rows store_ABC_def item_A_def item_B_def item_C_def)

lemma deliver_ABC_second_fails:
  "rows (deliver d now store_ABC
      (zip [PutItem 2 (priority_only 0), PutItem 3 (priority_only 1), PutItem 1 (priority_only 2)]
           [True, False, True])) =
   [item_A\<lparr>priority := 2\<rparr>, item_B\<lparr>priority := 0\<rparr>, item_C]"
  by (simp add: priority_only_def put_priority_rows store_ABC_def item_A_def item_B_def item_C_def)

text \<open>
  C1, as the code has it. Whatever category is shown, a drag that reorders takes the
  old and the new position in the whole item list and issues one update per item of the
  whole list: the update at position \<open>k\<close> goes to the item at position \<open>k\<close> of the whole
  new list and carries \<open>k\<close> as its priority, so the priorities written are the indices
  0 to M-1 of the whole new list; every item, also one outside the category shown, has
  its priority written.
\<close>

theorem drag_writes_whole_list:
  assumes "handleDragEnd items active over = Reordered new reqs"
  shows "map Some new = arrayMove items (findIndex (\<lambda>i. item_id i = active) items)
           (findIndex (\<lambda>i. Some (item_id i) = over) items) \<and>
         length new = length items \<and>
         length reqs = length items \<and>
         (\<forall>k<length new. reqs ! k =
            PutItem (item_id (new ! k)) (no_fields\<lparr>f_priority := Some (int k)\<rparr>)) \<and>
         map (f_priority \<circ> req_body) reqs = map (Some \<circ> int) [0..<length items] \<and>
         mset (map req_id reqs) = mset (map (Some \<circ> item_id) items) \<and>
         (\<forall>i\<in>set items. Some (item_id i) \<in> set (map req_id reqs))"
proof -
  from handleDragEnd_Reordered [OF assms] have
    r: "reqs = save_order new" and m: "mset new = mset items" and
    a: "map Some new = arrayMove items (findIndex (\<lambda>i. item_id i = active) items)
           (findIndex (\<lambda>i. Some (item_id i) = over) items)"
    by simp_all
  from m have len: "length new = length items" by (rule mset_eq_length)
  have l: "length reqs = length items" by (simp add: r length_save_order len)
  have p: "map (f_priority \<circ> req_body) reqs = map (Some \<circ> int) [0..<length items]"
    by (simp only: r req_priority_save_order len)
  have "mset (map req_id reqs) = mset (map (Some \<circ> item_id) new)"
    by (simp only: r req_id_save_order)
  also have "\<dots> = mset (map (Some \<circ> item_id) items)" using m by (metis mset_map)
  finally have i: "mset (map req_id reqs) = mset (map (Some \<circ> item_id) items)" .
  have "set (map req_id reqs) = set (map (Some \<circ> item_id) items)"
    using i by (rule mset_eq_setD)
  then have e: "\<forall>i\<in>set items. Some (item_id i) \<in> set (map req_id reqs)" by auto
  have k: "\<forall>k<length new. reqs ! k =
            PutItem (item_id (new ! k)) (no_fields\<lparr>f_priority := Some (int k)\<rparr>)"
    by (simp add: r nth_save_order)
  show ?thesis by (intro conjI a len l k p i e)
qed

text \<open>
  Witness for C1: \<open>A\<close> is dropped on \<open>C\<close> while only the toys \<open>A\<close> and \<open>C\<close> are shown; three
  updates are issued, one of them for \<open>B\<close>.
\<close>

theorem drag_writes_whole_list_witness:
  "handleDragEnd [item_A, item_B, item_C] 1 (Some 3) =
     Reordered [item_B, item_C, item_A]
       [PutItem 2 (priority_only 0), PutItem 3 (priority_only 1), PutItem 1 (priority_only 2)] \<and>
   filteredItems ''Toys'' [item_A, item_B, item_C] = [item_A, item_C] \<and>
   length [PutItem 2 (priority_only 0), PutItem 3 (priority_only 1), PutItem 1 (priority_only 2)] =
     length [item_A, item_B, item_C] \<and>
   Some (item_id item_B) \<in> set (map req_id
     [PutItem 2 (priority_only 0), PutItem 3 (priority_only 1), PutItem 1 (priority_only 2)])"
proof -
  note t = drag_writes_whole_list [OF drag_A_onto_C]
  note every = t [THEN conjunct2, THEN conjunct2, THEN conjunct2, THEN conjunct2, THEN conjunct2,
    THEN conjunct2]
  have "item_B \<in> set [item_A, item_B, item_C]" by simp
  from bspec [OF every this]
  have "Some (item_id item_B) \<in> set (map req_id
     [PutItem 2 (priority_only 0), PutItem 3 (priority_only 1), PutItem 1 (priority_only 2)])" .
  with drag_A_onto_C filtered_fixture show ?thesis by simp
qed

text \<open>
  Counterexample to C1 as stated: with only the toys shown, the code issues three
  updates, the first of them for \<open>B\<close>, which is no toy, where the specification's wording
  gives two updates, for \<open>C\<close> and \<open>A\<close> with priorities 0 and 1.
\<close>

theorem filtered_drag_counterexample:
  "filteredItems ''Toys'' [item_A, item_B, item_C] = [item_A, item_C] \<and>
   category item_B \<noteq> ''Toys'' \<and>
   handleDragEnd [item_A, item_B, item_C] 1 (Some 3) =
     Reordered [item_B, item_C, item_A]
       [PutItem 2 (priority_only 0), PutItem 3 (priority_only 1), PutItem 1 (priority_only 2)] \<and>
   spec_filtered_requests ''Toys'' [item_A, item_B, item_C] 1 (Some 3) =
     [PutItem 3 (priority_only 0), PutItem 1 (priority_only 1)] \<and>
   [PutItem 2 (priority_only 0), PutItem 3 (priority_only 1), PutItem 1 (priority_only 2)] \<noteq>
     spec_filtered_requests ''Toys'' [item_A, item_B, item_C] 1 (Some 3)"
proof -
  have c: "category item_B \<noteq> ''Toys''" by (simp add: item_B_def)
  show ?thesis unfolding spec_fixture using filtered_fixture c drag_A_onto_C by simp
qed

text \<open>
  C4, as the code has it. After a drag that reorders, every item of the new whole item
  list, moved or not, is sent an update with its index in that list; when the ids are
  distinct and all updates arrive, every stored row of such an item has that index as
  its priority, and no row is added or removed. The whole list is the rendered sequence
  when the category shown is \<open>All\<close>.
\<close>

theorem drag_persists_indices:
  assumes "handleDragEnd items active over = Reordered new reqs"
    and "distinct (map item_id items)"
  shows "length new = length items \<and>
    (\<forall>k<length new. reqs ! k =
        PutItem (item_id (new ! k)) (no_fields\<lparr>f_priority := Some (int k)\<rparr>)) \<and>
    (\<forall>row\<in>set (rows (deliver d now s (map (\<lambda>r. (r, True)) reqs))).
       \<forall>k<length new. item_id row = item_id (new ! k) \<longrightarrow> priority row = int k) \<and>
    map item_id (rows (deliver d now s (map (\<lambda>r. (r, True)) reqs))) = map item_id (rows s) \<and>
    filteredItems ''All'' new = new"
proof -
  from handleDragEnd_Reordered [OF assms(1)] have
    r: "reqs = save_order new" and m: "mset new = mset items" by simp_all
  from m have len: "length new = length items" by (rule mset_eq_length)
  from m assms(2) have dist: "distinct (map item_id new)" by (rule distinct_ids_perm)
  have reqs: "\<forall>k<length new. reqs ! k =
        PutItem (item_id (new ! k)) (no_fields\<lparr>f_priority := Some (int k)\<rparr>)"
    by (simp add: r nth_save_order)
  have final: "rows (deliver d now s (map (\<lambda>r. (r, True)) reqs)) = map (renumber 0 new) (rows s)"
    unfolding r by (rule deliver_all_save_order)
  have prio: "\<forall>row\<in>set (rows (deliver d now s (map (\<lambda>r. (r, True)) reqs))).
       \<forall>k<length new. item_id row = item_id (new ! k) \<longrightarrow> priority row = int k"
  proof (intro ballI allI impI)
    fix row k
    assume row: "row \<in> set (rows (deliver d now s (map (\<lambda>r. (r, True)) reqs)))"
      and k: "k < length new" and i: "item_id row = item_id (new ! k)"
    from row final obtain r0 where r0: "row = renumber 0 new r0" by auto
    then have "item_id r0 = item_id (new ! k)" using i by (simp add: item_id_renumber)
    from priority_renumber [OF dist k this, of 0] show "priority row = int k" by (simp add: r0)
  qed
  have ids: "map item_id (rows (deliver d now s (map (\<lambda>r. (r, True)) reqs))) = map item_id (rows s)"
    by (simp add: final item_id_renumber)
  have all: "filteredItems ''All'' new = new" by (simp add: filteredItems_def)
  from len reqs prio ids all show ?thesis by blast
qed

text \<open>
  Witness for C4: the scenario of the specification. With priorities \<open>A\<close>: 0, \<open>B\<close>: 1,
  \<open>C\<close>: 2, dropping \<open>A\<close> on \<open>C\<close> gives the sequence \<open>B\<close>, \<open>C\<close>, \<open>A\<close> and stores \<open>B\<close>: 0,
  \<open>C\<close>: 1, \<open>A\<close>: 2, and the listing is then \<open>B\<close>, \<open>C\<close>, \<open>A\<close>.
\<close>

theorem drag_persists_indices_witness:
  "handleDragEnd [item_A, item_B, item_C] 1 (Some 3) =
     Reordered [item_B, item_C, item_A]
       [PutItem 2 (priority_only 0), PutItem 3 (priority_only 1), PutItem 1 (priority_only 2)] \<and>
   distinct (map item_id [item_A, item_B, item_C]) \<and>
   priority item_A = 0 \<and> priority item_B = 1 \<and> priority item_C = 2 \<and>
   rows (deliver RejectsUndefined 400 store_ABC
      [(PutItem 2 (priority_only 0), True), (PutItem 3 (priority_only 1), True),
       (PutItem 1 (priority_only 2), True)]) =
   [item_A\<lparr>priority := 2\<rparr>, item_B\<lparr>priority := 0\<rparr>, item_C\<lparr>priority := 1\<rparr>] \<and>
   listAll \<lparr>rows = [item_A\<lparr>priority := 2\<rparr>, item_B\<lparr>priority := 0\<rparr>, item_C\<lparr>priority := 1\<rparr>],
      seq = 3\<rparr> =
   [item_B\<lparr>priority := 0\<rparr>, item_C\<lparr>priority := 1\<rparr>, item_A\<lparr>priority := 2\<rparr>]"
proof -
  note t = drag_persists_indices [OF drag_A_onto_C distinct_ABC, of RejectsUndefined 400 store_ABC]
  have p: "priority item_A = 0 \<and> priority item_B = 1 \<and> priority item_C = 2"
    by (simp add: item_A_def item_B_def item_C_def)
  have l: "listAll \<lparr>rows = [item_A\<lparr>priority := 2\<rparr>, item_B\<lparr>priority := 0\<rparr>, item_C\<lparr>priority := 1\<rparr>],
      seq = 3\<rparr> =
   [item_B\<lparr>priority := 0\<rparr>, item_C\<lparr>priority := 1\<rparr>, item_A\<lparr>priority := 2\<rparr>]"
    by (simp add: listAll_def order_by_def item_A_def item_B_def item_C_def)
  from t have n: "length [item_B, item_C, item_A] = length [item_A, item_B, item_C]" by blast
  from n drag_A_onto_C distinct_ABC p l deliver_ABC [of RejectsUndefined 400] show ?thesis
    by blast
qed

text \<open>
  Counterexample to C4 as stated: with only the toys shown, the new rendered sequence
  is \<open>C\<close>, \<open>A\<close>, with indices 0 and 1, and the priorities stored for them are 1 and 2.
\<close>

theorem rendered_index_counterexample:
  "handleDragEnd [item_A, item_B, item_C] 1 (Some 3) =
     Reordered [item_B, item_C, item_A]
       [PutItem 2 (priority_only 0), PutItem 3 (priority_only 1), PutItem 1 (priority_only 2)] \<and>
   filteredItems ''Toys'' [item_B, item_C, item_A] = [item_C, item_A] \<and>
   concat (map (stored_priority (deliver RejectsUndefined 400 store_ABC
      [(PutItem 2 (priority_only 0), True), (PutItem 3 (priority_only 1), True),
       (PutItem 1 (priority_only 2), True)]) \<circ> item_id) [item_C, item_A]) = [1, 2] \<and>
   map int [0..<length [item_C, item_A]] = [0, 1] \<and>
   [1, 2] \<noteq> [0, 1 :: int]"
proof -
  have f: "filteredItems ''Toys'' [item_B, item_C, item_A] = [item_C, item_A]"
    by (simp add: filteredItems_def item_A_def item_B_def item_C_def)
  have c: "concat (map (stored_priority (deliver RejectsUndefined 400 store_ABC
      [(PutItem 2 (priority_only 0), True), (PutItem 3 (priority_only 1), True),
       (PutItem 1 (priority_only 2), True)]) \<circ> item_id) [item_C, item_A]) = [1, 2]"
    unfolding comp_def stored_priority_def deliver_ABC
    by (simp add: item_A_def item_B_def item_C_def)
  have u: "map int [0..<length [item_C, item_A]] = [0, 1]" by (simp add: upt_rec)
  have n: "[1, 2] \<noteq> [0, 1 :: int]" by simp
  from drag_A_onto_C f c u n show ?thesis by blast
qed

text \<open>
  C3, as the code has it. The three updates of a reorder over three items with
  distinct ids are issued once each and independently of one another. When the second
  fails and the others arrive, the rows of the first item of the new sequence have
  priority 0, the rows of the third have priority 2, and every other row, those of the
  second item included, is as before: nothing is retried and nothing is rolled back.
\<close>

theorem drag_second_request_fails:
  assumes "handleDragEnd items active over = Reordered new reqs"
    and "length items = 3"
    and "distinct (map item_id items)"
  shows "length reqs = 3 \<and>
     rows (deliver d now s (zip reqs [True, False, True])) =
       map (\<lambda>row. if item_id row = item_id (new ! 0) then row\<lparr>priority := 0\<rparr>
                  else if item_id row = item_id (new ! 2) then row\<lparr>priority := 2\<rparr>
                  else row) (rows s) \<and>
     item_id (new ! 1) \<noteq> item_id (new ! 0) \<and> item_id (new ! 1) \<noteq> item_id (new ! 2)"
proof -
  from handleDragEnd_Reordered [OF assms(1)] have
    r: "reqs = save_order new" and m: "mset new = mset items" by simp_all
  from m have "length new = length items" by (rule mset_eq_length)
  with assms(2) obtain p q z where new: "new = [p, q, z]" using length_3 by metis
  from m assms(3) have "distinct (map item_id new)" by (rule distinct_ids_perm)
  then have d: "item_id p \<noteq> item_id q" "item_id p \<noteq> item_id z" "item_id q \<noteq> item_id z"
    by (simp_all add: new)
  have reqs: "reqs = [PutItem (item_id p) (no_fields\<lparr>f_priority := Some 0\<rparr>),
      PutItem (item_id q) (no_fields\<lparr>f_priority := Some 1\<rparr>),
      PutItem (item_id z) (no_fields\<lparr>f_priority := Some 2\<rparr>)]"
    by (simp add: r new save_order_def)
  have "rows (deliver d now s (zip reqs [True, False, True])) =
     map (\<lambda>row. if item_id row = item_id z then row\<lparr>priority := 2\<rparr> else row)
       (map (\<lambda>row. if item_id row = item_id p then row\<lparr>priority := 0\<rparr> else row) (rows s))"
    by (simp add: reqs put_priority_rows del: map_map)
  also have "\<dots> = map (\<lambda>row. if item_id row = item_id p then row\<lparr>priority := 0\<rparr>
                  else if item_id row = item_id z then row\<lparr>priority := 2\<rparr>
                  else row) (rows s)"
    using d by auto
  finally have f: "rows (deliver d now s (zip reqs [True, False, True])) =
       map (\<lambda>row. if item_id row = item_id (new ! 0) then row\<lparr>priority := 0\<rparr>
                  else if item_id row = item_id (new ! 2) then row\<lparr>priority := 2\<rparr>
                  else row) (rows s)"
    by (simp add: new)
  have l: "length reqs = 3" by (simp add: reqs)
  have n: "item_id (new ! 1) \<noteq> item_id (new ! 0) \<and> item_id (new ! 1) \<noteq> item_id (new ! 2)"
    using d by (simp add: new)
  from l f n show ?thesis by blast
qed

text \<open>
  Witness for C3: \<open>A\<close> is dropped on \<open>C\<close> and the update for \<open>C\<close> fails.
\<close>

theorem drag_second_request_fails_witness:
  "handleDragEnd [item_A, item_B, item_C] 1 (Some 3) =
     Reordered [item_B, item_C, item_A]
       [PutItem 2 (priority_only 0), PutItem 3 (priority_only 1), PutItem 1 (priority_only 2)] \<and>
   length [item_A, item_B, item_C] = 3 \<and>
   distinct (map item_id [item_A, item_B, item_C]) \<and>
   rows (deliver RejectsUndefined 400 store_ABC
      (zip [PutItem 2 (priority_only 0), PutItem 3 (priority_only 1), PutItem 1 (priority_only 2)]
           [True, False, True])) =
     map (\<lambda>row. if item_id row = item_id item_B then row\<lparr>priority := 0\<rparr>
                else if item_id row = item_id item_A then row\<lparr>priority := 2\<rparr>
                else row) (rows store_ABC)"
proof -
  have l: "length [item_A, item_B, item_C] = 3" by simp
  from drag_second_request_fails [OF drag_A_onto_C l distinct_ABC, of RejectsUndefined 400 store_ABC]
  have "rows (deliver RejectsUndefined 400 store_ABC
      (zip [PutItem 2 (priority_only 0), PutItem 3 (priority_only 1), PutItem 1 (priority_only 2)]
           [True, False, True])) =
     map (\<lambda>row. if item_id row = item_id item_B then row\<lparr>priority := 0\<rparr>
                else if item_id row = item_id item_A then row\<lparr>priority := 2\<rparr>
                else row) (rows store_ABC)"
    by simp
  with drag_A_onto_C l distinct_ABC show ?thesis by blast
qed

text \<open>
  Counterexample to C3 as stated: \<open>A\<close> is dropped on \<open>C\<close> and the second update, for \<open>C\<close>,
  fails. The third item of the new sequence is \<open>A\<close>; its priority is then 2 and not 0
  as before, so the store is not the one with only the first update applied.
\<close>

theorem second_request_fails_counterexample:
  "listAll store_ABC = [item_A, item_B, item_C] \<and>
   handleDragEnd [item_A, item_B, item_C] 1 (Some 3) =
     Reordered [item_B, item_C, item_A]
       [PutItem 2 (priority_only 0), PutItem 3 (priority_only 1), PutItem 1 (priority_only 2)] \<and>
   rows (deliver RejectsUndefined 400 store_ABC
      (zip [PutItem 2 (priority_only 0), PutItem 3 (priority_only 1), PutItem 1 (priority_only 2)]
           [True, False, True])) =
     [item_A\<lparr>priority := 2\<rparr>, item_B\<lparr>priority := 0\<rparr>, item_C] \<and>
   [item_A\<lparr>priority := 2\<rparr>, item_B\<lparr>priority := 0\<rparr>, item_C] \<noteq>
     [item_A, item_B\<lparr>priority := 0\<rparr>, item_C] \<and>
   priority (item_A\<lparr>priority := 2\<rparr>) \<noteq> priority item_A"
proof -
  have l: "listAll store_ABC = [item_A, item_B, item_C]"
    by (simp add: listAll_def store_ABC_def order_by_def item_A_def item_B_def item_C_def)
  have n: "[item_A\<lparr>priority := 2\<rparr>, item_B\<lparr>priority := 0\<rparr>, item_C] \<noteq>
     [item_A, item_B\<lparr>priority := 0\<rparr>, item_C]"
    by (simp add: item_A_def)
  have p: "priority (item_A\<lparr>priority := 2\<rparr>) \<noteq> priority item_A" by (simp add: item_A_def)
  from l drag_A_onto_C deliver_ABC_second_fails [of RejectsUndefined 400] n p show ?thesis
    by blast
qed

section \<open>Properties of the form\<close>

lemma scheme_test_https: "scheme_test (''https://'' @ t)"
  by simp

lemma submitUrl_nonempty: "trim u \<noteq> [] \<Longrightarrow> scheme_test (submitUrl u)"
  by (simp add: submitUrl_def Let_def)

lemma handleSubmit_payload:
  "handleSubmit False stamp items editingItem form =
     Some \<lparr>sub_upload = map_option (upload_key stamp) (fd_imageFile form),
       sub_request =
         (case editingItem of
            None \<Rightarrow> PostItem
              \<lparr>f_name = Some (fd_name form), f_price = Some (fd_price form),
               f_url = Some (submitUrl (fd_url form)),
               f_image_key = Some (case fd_imageFile form of None \<Rightarrow> fd_currentImageKey form
                                   | Some n \<Rightarrow> upload_key stamp n),
               f_category = Some (fd_category form), f_priority = Some (int (length items))\<rparr>
          | Some e \<Rightarrow> PutItem (item_id e)
              \<lparr>f_name = Some (fd_name form), f_price = Some (fd_price form),
               f_url = Some (submitUrl (fd_url form)),
               f_image_key = Some (case fd_imageFile form of None \<Rightarrow> fd_currentImageKey form
                                   | Some n \<Rightarrow> upload_key stamp n),
               f_category = Some (fd_category form), f_priority = None\<rparr>)\<rparr>"
  by (cases editingItem; cases "fd_imageFile form"; simp add: handleSubmit_def Let_def)

text \<open>
  C9, as the code has it. A submitted url that is not empty after trimming is sent
  and stored with a scheme: unchanged (but trimmed) when it starts with \<open>http://\<close> or
  \<open>https://\<close> in any case, with \<open>https://\<close> put before it otherwise; so \<open>example.com\<close>
  becomes \<open>https://example.com\<close> and \<open>http://example.com\<close> stays. A url that is empty
  after trimming is sent and stored as the empty string. The value stored by the insert
  of a new item and by the update of an edited one is the value so computed.
\<close>

theorem submitUrl_scheme:
  "(trim (fd_url form) \<noteq> [] \<longrightarrow> scheme_test (submitUrl (fd_url form))) \<and>
   (trim (fd_url form) = [] \<longrightarrow> submitUrl (fd_url form) = []) \<and>
   (scheme_test (trim (fd_url form)) \<longrightarrow> submitUrl (fd_url form) = trim (fd_url form)) \<and>
   (trim (fd_url form) \<noteq> [] \<and> \<not> scheme_test (trim (fd_url form)) \<longrightarrow>
      submitUrl (fd_url form) = ''https://'' @ trim (fd_url form)) \<and>
   submitUrl ''example.com'' = ''https://example.com'' \<and>
   submitUrl ''http://example.com'' = ''http://example.com'' \<and>
   (\<exists>sub r. handleSubmit False stamp items None form = Some sub \<and>
      rows (serve d now s (sub_request sub)) = rows s @ [r] \<and>
      url r = Some (submitUrl (fd_url form))) \<and>
   (\<exists>sub. handleSubmit False stamp items (Some e) form = Some sub \<and>
      (\<forall>r\<in>set (rows (serve d now s (sub_request sub))).
         item_id r = item_id e \<longrightarrow> url r = Some (submitUrl (fd_url form))))"
proof -
  have a: "trim (fd_url form) \<noteq> [] \<longrightarrow> scheme_test (submitUrl (fd_url form))"
    by (simp add: submitUrl_nonempty)
  have b: "trim (fd_url form) = [] \<longrightarrow> submitUrl (fd_url form) = []"
    by (simp add: submitUrl_def)
  have c: "scheme_test (trim (fd_url form)) \<longrightarrow> submitUrl (fd_url form) = trim (fd_url form)"
    by (simp add: submitUrl_def Let_def)
  have c': "trim (fd_url form) \<noteq> [] \<and> \<not> scheme_test (trim (fd_url form)) \<longrightarrow>
      submitUrl (fd_url form) = ''https://'' @ trim (fd_url form)"
    by (simp add: submitUrl_def Let_def)
  have x1: "submitUrl ''example.com'' = ''https://example.com''"
    by (simp add: submitUrl_def trim_def isWhiteSpace_def)
  have x2: "submitUrl ''http://example.com'' = ''http://example.com''"
    by (simp add: submitUrl_def trim_def isWhiteSpace_def)
  have n: "\<exists>sub r. handleSubmit False stamp items None form = Some sub \<and>
      rows (serve d now s (sub_request sub)) = rows s @ [r] \<and>
      url r = Some (submitUrl (fd_url form))"
    by (simp add: handleSubmit_payload post_items_full)
  have ed: "\<exists>sub. handleSubmit False stamp items (Some e) form = Some sub \<and>
      (\<forall>r\<in>set (rows (serve d now s (sub_request sub))).
         item_id r = item_id e \<longrightarrow> url r = Some (submitUrl (fd_url form)))"
  proof (intro exI conjI ballI impI)
    show "handleSubmit False stamp items (Some e) form =
      Some \<lparr>sub_upload = map_option (upload_key stamp) (fd_imageFile form),
        sub_request = PutItem (item_id e)
          \<lparr>f_name = Some (fd_name form), f_price = Some (fd_price form),
           f_url = Some (submitUrl (fd_url form)),
           f_image_key = Some (case fd_imageFile form of None \<Rightarrow> fd_currentImageKey form
                               | Some n \<Rightarrow> upload_key stamp n),
           f_category = Some (fd_category form), f_priority = None\<rparr>\<rparr>"
      by (simp add: handleSubmit_payload)
  next
    fix r
    assume "r \<in> set (rows (serve d now s (sub_request
      \<lparr>sub_upload = map_option (upload_key stamp) (fd_imageFile form),
        sub_request = PutItem (item_id e)
          \<lparr>f_name = Some (fd_name form), f_price = Some (fd_price form),
           f_url = Some (submitUrl (fd_url form)),
           f_image_key = Some (case fd_imageFile form of None \<Rightarrow> fd_currentImageKey form
                               | Some n \<Rightarrow> upload_key stamp n),
           f_category = Some (fd_category form), f_priority = None\<rparr>\<rparr>)))"
      and i: "item_id r = item_id e"
    then have "r \<in> set (rows (fst (put_item s (item_id e)
          \<lparr>f_name = Some (fd_name form), f_price = Some (fd_price form),
           f_url = Some (submitUrl (fd_url form)),
           f_image_key = Some (case fd_imageFile form of None \<Rightarrow> fd_currentImageKey form
                               | Some n \<Rightarrow> upload_key stamp n),
           f_category = Some (fd_category form), f_priority = None\<rparr>)))"
      by simp
    from put_item_url [OF _ this i] show "url r = Some (submitUrl (fd_url form))" by simp
  qed
  show ?thesis by (intro conjI a b c c' x1 x2 n ed)
qed

text \<open>
  Witness for C9: the urls \<open>example.com\<close>, three blanks and \<open>http://example.com\<close>.
\<close>

theorem submitUrl_scheme_witness:
  "trim (fd_url lamp_form) \<noteq> [] \<and> submitUrl (fd_url lamp_form) = ''https://example.com'' \<and>
   scheme_test ''https://example.com'' \<and>
   trim ''   '' = [] \<and> submitUrl ''   '' = [] \<and>
   scheme_test (trim ''http://example.com'') \<and>
   submitUrl ''http://example.com'' = ''http://example.com''"
proof -
  have t: "trim (fd_url lamp_form) \<noteq> []"
    by (simp add: lamp_form_def trim_def isWhiteSpace_def)
  have t2: "trim ''   '' = []" by (simp add: trim_def isWhiteSpace_def)
  have t3: "scheme_test (trim ''http://example.com'')" by (simp add: trim_def isWhiteSpace_def)
  have u: "fd_url lamp_form = ''example.com''" by (simp add: lamp_form_def)
  note th = submitUrl_scheme [of lamp_form "[]" "[]" RejectsUndefined 0 empty_store item_A]
  have 1: "scheme_test (submitUrl (fd_url lamp_form))"
    by (rule th [THEN conjunct1, THEN mp, OF t])
  have x: "submitUrl ''example.com'' = ''https://example.com''"
    by (rule th [THEN conjunct2, THEN conjunct2, THEN conjunct2, THEN conjunct2, THEN conjunct1])
  have 2: "submitUrl (fd_url lamp_form) = ''https://example.com''"
    unfolding u by (rule x)
  have 3: "submitUrl ''   '' = []" by (simp add: submitUrl_def t2)
  have 4: "submitUrl ''http://example.com'' = ''http://example.com''"
    by (rule th [THEN conjunct2, THEN conjunct2, THEN conjunct2, THEN conjunct2, THEN conjunct2,
          THEN conjunct1])
  have 5: "scheme_test ''https://example.com''" using 1 unfolding 2 .
  show ?thesis by (intro conjI t 2 5 t2 3 t3 4)
qed

text \<open>
  Counterexample to C9 as stated: a url of three blanks passes the form, is trimmed
  to the empty string, gets no scheme, and is stored as the empty string.
\<close>

theorem blank_url_counterexample:
  "trim ''   '' = [] \<and> submitUrl ''   '' = [] \<and> \<not> scheme_test [] \<and>
   handleSubmit False ''17'' [] None (lamp_form\<lparr>fd_url := ''   ''\<rparr>) =
     Some \<lparr>sub_upload = None,
       sub_request = PostItem \<lparr>f_name = Some ''lamp'', f_price = Some 20, f_url = Some [],
         f_image_key = Some [], f_category = Some ''Tech'', f_priority = Some 0\<rparr>\<rparr> \<and>
   rows (serve RejectsUndefined 1000 empty_store
     (PostItem \<lparr>f_name = Some ''lamp'', f_price = Some 20, f_url = Some [],
         f_image_key = Some [], f_category = Some ''Tech'', f_priority = Some 0\<rparr>)) =
     [\<lparr>item_id = 1, name = ''lamp'', price = Some 20, url = Some [], image_key = Some [],
       category = ''Tech'', priority = 0, created_at = 1000\<rparr>]"
proof -
  have t: "trim ''   '' = []" by (simp add: trim_def isWhiteSpace_def)
  have u: "submitUrl ''   '' = []" by (simp add: submitUrl_def t)
  have h: "handleSubmit False ''17'' [] None (lamp_form\<lparr>fd_url := ''   ''\<rparr>) =
     Some \<lparr>sub_upload = None,
       sub_request = PostItem \<lparr>f_name = Some ''lamp'', f_price = Some 20, f_url = Some [],
         f_image_key = Some [], f_category = Some ''Tech'', f_priority = Some 0\<rparr>\<rparr>"
    unfolding handleSubmit_payload by (simp add: lamp_form_def u)
  have r: "rows (serve RejectsUndefined 1000 empty_store
     (PostItem \<lparr>f_name = Some ''lamp'', f_price = Some 20, f_url = Some [],
         f_image_key = Some [], f_category = Some ''Tech'', f_priority = Some 0\<rparr>)) =
     [\<lparr>item_id = 1, name = ''lamp'', price = Some 20, url = Some [], image_key = Some [],
       category = ''Tech'', priority = 0, created_at = 1000\<rparr>]"
    by (simp add: post_items_full empty_store_def last_row_id_def category_or_def priority_or_def)
  have e: "\<not> scheme_test []" by simp
  show ?thesis by (intro conjI t u e h r)
qed

text \<open>
  C10. Saving the form for an existing item sends an update without \<open>priority\<close>, and
  the priorities of all rows stay as they are. Saving it for a new item sends an insert
  whose priority is the length of the whole item list, and the row created has that
  priority. While a submission is under way nothing is sent.
\<close>

theorem edit_keeps_priority:
  "(\<exists>body. handleSubmit False stamp items (Some e) form =
       Some \<lparr>sub_upload = map_option (upload_key stamp) (fd_imageFile form),
         sub_request = PutItem (item_id e) body\<rparr> \<and>
      f_priority body = None \<and>
      map priority (rows (serve d now s (PutItem (item_id e) body))) = map priority (rows s)) \<and>
   (\<exists>body r. handleSubmit False stamp items None form =
       Some \<lparr>sub_upload = map_option (upload_key stamp) (fd_imageFile form),
         sub_request = PostItem body\<rparr> \<and>
      f_priority body = Some (int (length items)) \<and>
      rows (serve d now s (PostItem body)) = rows s @ [r] \<and>
      item_id r = last_row_id s \<and>
      priority r = int (length items)) \<and>
   handleSubmit True stamp items editing form = None"
proof -
  have a: "\<exists>body. handleSubmit False stamp items (Some e) form =
       Some \<lparr>sub_upload = map_option (upload_key stamp) (fd_imageFile form),
         sub_request = PutItem (item_id e) body\<rparr> \<and>
      f_priority body = None \<and>
      map priority (rows (serve d now s (PutItem (item_id e) body))) = map priority (rows s)"
    by (simp add: handleSubmit_payload put_item_keeps_priority)
  have b: "\<exists>body r. handleSubmit False stamp items None form =
       Some \<lparr>sub_upload = map_option (upload_key stamp) (fd_imageFile form),
         sub_request = PostItem body\<rparr> \<and>
      f_priority body = Some (int (length items)) \<and>
      rows (serve d now s (PostItem body)) = rows s @ [r] \<and>
      item_id r = last_row_id s \<and>
      priority r = int (length items)"
    by (simp add: handleSubmit_payload post_items_full priority_or_def)
  have c: "handleSubmit True stamp items editing form = None" by (simp add: handleSubmit_def)
  show ?thesis by (intro conjI a b c)
qed

end
